theory Spec2Isabelle
  imports Main
begin

section \<open>Go values: errors, panics and the string functions the package calls\<close>

text \<open>
  A non-nil Go \<open>error\<close> is a value \<open>Error msg\<close>; a Go result of type \<open>error\<close> is an
  \<open>error option\<close> (\<open>None\<close> is \<open>nil\<close>). A run-time panic is not a result: a function that
  can panic returns \<open>panic + 'a\<close>, with \<open>Inl\<close> the panic.
\<close>

datatype error = Error string

datatype panic = IndexOutOfRange | Panicked string

text \<open>\<open>strings.HasPrefix\<close>, \<open>strings.HasSuffix\<close>, \<open>strings.Contains\<close>, \<open>strings.Join\<close>.\<close>

definition HasPrefix :: "string \<Rightarrow> string \<Rightarrow> bool" where
  "HasPrefix s p = (length p \<le> length s \<and> take (length p) s = p)"

definition HasSuffix :: "string \<Rightarrow> string \<Rightarrow> bool" where
  "HasSuffix s suf = (length suf \<le> length s \<and> drop (length s - length suf) s = suf)"

fun Contains :: "string \<Rightarrow> string \<Rightarrow> bool" where
  "Contains [] sub = (sub = [])"
| "Contains (c # s) sub = (HasPrefix (c # s) sub \<or> Contains s sub)"

fun Join :: "string list \<Rightarrow> string \<Rightarrow> string" where
  "Join [] sep = []"
| "Join [x] sep = x"
| "Join (x # y # ys) sep = x @ sep @ Join (y # ys) sep"

text \<open>
  \<open>path.Base\<close>: the empty path gives \<open>"."\<close>; trailing slashes are stripped, then
  everything up to the last slash; a path of slashes only gives \<open>"/"\<close>.
\<close>

definition Base :: "string \<Rightarrow> string" where
  "Base p =
     (if p = [] then ''.''
      else
        let q = rev (dropWhile (\<lambda>c. c = CHR ''/'') (rev p));
            r = rev (takeWhile (\<lambda>c. c \<noteq> CHR ''/'') (rev q))
        in if r = [] then ''/'' else r)"

section \<open>The splitter\<close>

text \<open>
  \<open>str.ToArgv\<close> belongs to another module (github.com/mgutz/str); the tokenizer is a
  parameter of every function that reaches it.
\<close>

type_synonym tokenizer = "string \<Rightarrow> string list"

text \<open>
  The \<open>for i, item := range argv\<close> loop of \<open>splitCommand\<close>, on the items not yet
  visited and the \<open>env\<close> collected so far. \<open>Inr (executable, argv[i+1:], env)\<close> is the
  \<open>return\<close> inside the loop; \<open>Inl env\<close> is the loop running off the end of the slice.
\<close>

fun splitCommand_loop ::
  "string list \<Rightarrow> string list \<Rightarrow> string list + (string \<times> string list \<times> string list)" where
  "splitCommand_loop [] envs = Inl envs"
| "splitCommand_loop (item # rest) envs =
     (if Contains item ''='' then splitCommand_loop rest (envs @ [item])
      else Inr (item, rest, envs))"

text \<open>
  \<open>splitCommand\<close> returns \<open>(executable, argv, env)\<close>. After the loop the code reads
  \<open>argv[0]\<close>, which panics on the empty slice.
\<close>

definition splitCommand ::
  "tokenizer \<Rightarrow> string \<Rightarrow> panic + (string \<times> string list \<times> string list)" where
  "splitCommand ToArgv commandstr =
     (let toks = ToArgv commandstr in
      case splitCommand_loop toks [] of
        Inr r \<Rightarrow> Inr r
      | Inl envs \<Rightarrow>
          (case toks of
             [] \<Rightarrow> Inl IndexOutOfRange
           | t # ts \<Rightarrow> Inr (t, ts, envs)))"

text \<open>
  A tokenizer for the examples: it splits at spaces. \<open>str.ToArgv\<close> does the same on a
  string with no quote, no escape and no other white space.
\<close>

fun fields_from :: "string \<Rightarrow> string \<Rightarrow> string list" where
  "fields_from word [] = (if word = [] then [] else [word])"
| "fields_from word (c # cs) =
     (if c = CHR '' ''
      then (if word = [] then fields_from [] cs else word # fields_from [] cs)
      else fields_from (word @ [c]) cs)"

definition space_fields :: tokenizer where
  "space_fields s = fields_from [] s"

section \<open>The command descriptor and its identity\<close>

record command =
  executable :: string
  argv :: "string list"
  env :: "string list"
  wd :: string
  captureOutput :: bool
  recorder :: string

definition hash :: "command \<Rightarrow> string" where
  "hash gcmd =
     (if length (argv gcmd) > 0 then executable gcmd @ Join (argv gcmd) '',''
      else executable gcmd)"

section \<open>The operating system as the package sees it\<close>

type_synonym pid = nat

datatype stream = Stdout | Stderr

text \<open>
  What \<open>exec.Cmd.Stdout\<close> and \<open>exec.Cmd.Stderr\<close> are set to: one of the files
  \<open>os.Stdout\<close>, \<open>os.Stderr\<close>, or a wrapper made by
  \<open>newFileWrapper(file, &gcmd.recorder, colour)\<close>.
\<close>

datatype writer = OsFile stream | FileWrapper stream string

record Cmd =
  Path :: string
  Args :: "string list"
  Dir :: string
  Env :: "string list"
  CmdStdout :: writer
  CmdStderr :: writer

text \<open>
  A background execution unit is the goroutine of \<open>runAsync\<close>, with the \<open>id\<close> and
  \<open>cmd\<close> it closes over. Its phases: scheduled by the \<open>go\<close> statement; \<open>cmd.Start()\<close>
  succeeded; handle stored in the registry and blocked in \<open>cmd.Wait()\<close>; returned after
  \<open>cmd.Start()\<close> failed; returned after \<open>waitgroup.Done()\<close>.
\<close>

datatype phase = Scheduled | Started pid | Waiting pid | Failed | Finished

record bg_unit =
  unit_id :: string
  unit_cmd :: Cmd
  unit_phase :: phase

text \<open>A line written by \<open>util.Error(group, format, process)\<close>.\<close>

datatype log_entry = LogError string string pid

text \<open>
  The state the package reads and writes. \<open>cwd\<close>, \<open>getwd_error\<close> and \<open>chdir_to\<close>
  stand for the process-wide working directory: \<open>chdir_to w c p\<close> is the directory
  that path \<open>p\<close> leads to from \<open>c\<close>, or the error of \<open>os.Chdir(p)\<close> when it fails there.
  \<open>child w cmd\<close> is what the program run by \<open>cmd\<close> writes, chunk by chunk, and the
  error of \<open>cmd.Run()\<close>. \<open>spawnedProcesses\<close>, \<open>waitExit\<close> and \<open>waitgroup\<close> are the
  package-level variables; \<open>units\<close> are the goroutines started so far; \<open>live\<close> are
  the running child processes and \<open>killed\<close> the processes that were sent a kill
  signal, in order.
\<close>

record world =
  cwd :: string
  getwd_error :: "error option"
  chdir_to :: "string \<Rightarrow> string \<Rightarrow> error + string"
  environ :: "string list"
  child :: "Cmd \<Rightarrow> (stream \<times> string) list \<times> error option"
  stdout_file :: string
  stderr_file :: string
  errlog :: "log_entry list"
  spawnedProcesses :: "string \<rightharpoonup> pid"
  waitExit :: bool
  waitgroup :: int
  units :: "bg_unit list"
  next_pid :: pid
  live :: "pid list"
  killed :: "pid list"

definition Getwd :: "world \<Rightarrow> error + string" where
  "Getwd w = (case getwd_error w of Some e \<Rightarrow> Inl e | None \<Rightarrow> Inr (cwd w))"

definition Chdir :: "string \<Rightarrow> world \<Rightarrow> error option \<times> world" where
  "Chdir dir w =
     (case chdir_to w (cwd w) dir of
        Inl e \<Rightarrow> (Some e, w)
      | Inr d \<Rightarrow> (None, w\<lparr>cwd := d\<rparr>))"

text \<open>
  \<open>os.Process.Kill\<close>: a running process is sent the kill signal and stops; for a
  process that is no longer running the call returns an error.
\<close>

definition Process_Kill :: "pid \<Rightarrow> world \<Rightarrow> error option \<times> world" where
  "Process_Kill p w =
     (if p \<in> set (live w)
      then (None, w\<lparr>live := removeAll p (live w), killed := killed w @ [p]\<rparr>)
      else (Some (Error ''os: process already finished''), w))"

definition file_write :: "stream \<Rightarrow> string \<Rightarrow> world \<Rightarrow> world" where
  "file_write s p w =
     (case s of
        Stdout \<Rightarrow> w\<lparr>stdout_file := stdout_file w @ p\<rparr>
      | Stderr \<Rightarrow> w\<lparr>stderr_file := stderr_file w @ p\<rparr>)"

definition ansi_red_bold :: string where
  "ansi_red_bold = CHR 0x1B # ''[1;31m''"

definition ansi_reset :: string where
  "ansi_reset = CHR 0x1B # ''[0m''"

text \<open>
  Modelled from the spec: \<open>newFileWrapper\<close> and the wrapper's \<open>Write\<close> are not in
  src/. Section 4.2: the bytes go to the recording buffer unmarked and to the file,
  wrapped in the colour marker when the wrapper has one.
\<close>

definition wrapper_write ::
  "stream \<Rightarrow> string \<Rightarrow> string \<Rightarrow> string \<times> world \<Rightarrow> string \<times> world" where
  "wrapper_write s colour p rw =
     (fst rw @ p,
      file_write s (if colour = [] then p else colour @ p @ ansi_reset) (snd rw))"

definition writer_write :: "writer \<Rightarrow> string \<Rightarrow> string \<times> world \<Rightarrow> string \<times> world" where
  "writer_write wr p rw =
     (case wr of
        OsFile s \<Rightarrow> (fst rw, file_write s p (snd rw))
      | FileWrapper s colour \<Rightarrow> wrapper_write s colour p rw)"

definition chunk_write :: "Cmd \<Rightarrow> string \<times> world \<Rightarrow> stream \<times> string \<Rightarrow> string \<times> world" where
  "chunk_write cmd rw ch =
     writer_write (case fst ch of Stdout \<Rightarrow> CmdStdout cmd | Stderr \<Rightarrow> CmdStderr cmd)
       (snd ch) rw"

text \<open>
  \<open>exec.Cmd.Run\<close>: the child runs to its end; each chunk it writes goes through the
  writer of its stream. The second component is the recording buffer afterwards.
\<close>

definition Cmd_Run :: "Cmd \<Rightarrow> string \<Rightarrow> world \<Rightarrow> error option \<times> string \<times> world" where
  "Cmd_Run cmd rec w =
     (let rw = foldl (chunk_write cmd) (rec, w) (fst (child w cmd))
      in (snd (child w cmd), fst rw, snd rw))"

text \<open>
  Modelled from the spec: \<open>effectiveEnv\<close> is not in src/. Section 6: the host's
  environment, with the overrides appended.
\<close>

definition effectiveEnv :: "string list \<Rightarrow> world \<Rightarrow> string list" where
  "effectiveEnv envs w = environ w @ envs"

text \<open>
  Modelled from the spec: \<open>util.Error\<close> is not in src/. Section 4.4: a logging
  side-channel.
\<close>

definition util_Error :: "string \<Rightarrow> string \<Rightarrow> pid \<Rightarrow> world \<Rightarrow> world" where
  "util_Error grp fmt p w = w\<lparr>errlog := errlog w @ [LogError grp fmt p]\<rparr>"

section \<open>Running a command\<close>

text \<open>\<open>In\<close> is \<open>[]string\<close>; the variadic \<open>wd ...In\<close> is a list of them.\<close>

definition getWd :: "string list list \<Rightarrow> world \<Rightarrow> panic + (error + string)" where
  "getWd wds w =
     (if length wds = 1
      then (case hd wds of [] \<Rightarrow> Inl IndexOutOfRange | d # _ \<Rightarrow> Inr (Inr d))
      else Inr (Getwd w))"

text \<open>\<open>cmd.Stdin = os.Stdin\<close> is left out: nothing here reads the standard input.\<close>

definition toCmd :: "command \<Rightarrow> world \<Rightarrow> Cmd \<times> error option" where
  "toCmd gcmd w =
     (\<lparr>Path = executable gcmd,
       Args = executable gcmd # argv gcmd,
       Dir = (if wd gcmd \<noteq> [] then wd gcmd else []),
       Env = effectiveEnv (env gcmd) w,
       CmdStdout = (if captureOutput gcmd then FileWrapper Stdout [] else OsFile Stdout),
       CmdStderr = (if captureOutput gcmd then FileWrapper Stderr ansi_red_bold
                    else OsFile Stderr)\<rparr>,
      None)"

text \<open>The method \<open>(gcmd *command) run\<close>: \<open>((output, err), world)\<close>.\<close>

definition command_run :: "command \<Rightarrow> world \<Rightarrow> (string \<times> error option) \<times> world" where
  "command_run gcmd w =
     (case toCmd gcmd w of
        (cmd, Some e) \<Rightarrow> (([], Some e), w)
      | (cmd, None) \<Rightarrow>
          (case Cmd_Run cmd (recorder gcmd) w of
             (err, rec, w') \<Rightarrow>
               if captureOutput gcmd then ((rec, err), w') else (([], err), w')))"

definition run ::
  "tokenizer \<Rightarrow> bool \<Rightarrow> string \<Rightarrow> string list list \<Rightarrow> world \<Rightarrow>
   (panic + string \<times> error option) \<times> world" where
  "run ToArgv capture commandstr wds w =
     (case getWd wds w of
        Inl p \<Rightarrow> (Inl p, w)
      | Inr (Inl e) \<Rightarrow> (Inr ([], Some e), w)
      | Inr (Inr dir) \<Rightarrow>
          (case splitCommand ToArgv commandstr of
             Inl p \<Rightarrow> (Inl p, w)
           | Inr (exe, args, envs) \<Rightarrow>
               (case command_run
                       \<lparr>executable = exe, argv = args, env = envs, wd = dir,
                        captureOutput = capture, recorder = []\<rparr> w of
                  (r, w') \<Rightarrow> (Inr r, w'))))"

definition Run ::
  "tokenizer \<Rightarrow> string \<Rightarrow> string list list \<Rightarrow> world \<Rightarrow> (panic + error option) \<times> world" where
  "Run ToArgv commandstr wds w =
     (case run ToArgv False commandstr wds w of
        (Inl p, w') \<Rightarrow> (Inl p, w')
      | (Inr (out, err), w') \<Rightarrow> (Inr err, w'))"

definition RunOutput ::
  "tokenizer \<Rightarrow> string \<Rightarrow> string list list \<Rightarrow> world \<Rightarrow>
   (panic + string \<times> error option) \<times> world" where
  "RunOutput ToArgv commandstr wds w = run ToArgv True commandstr wds w"

section \<open>Starting a command in the background\<close>

definition killSpawned :: "string \<Rightarrow> world \<Rightarrow> world" where
  "killSpawned ident w =
     (case spawnedProcesses w ident of
        None \<Rightarrow> w
      | Some process \<Rightarrow>
          (case Process_Kill process w of
             (Some e, w') \<Rightarrow>
               util_Error ''Start'' ''Could not kill existing process %+v\<newline>'' process w'
           | (None, w') \<Rightarrow> w'))"

text \<open>
  \<open>runAsync\<close> up to its \<open>return nil\<close>. The \<open>go\<close> statement adds a scheduled unit; the
  body of the goroutine runs later, in the steps below.
\<close>

definition runAsync :: "command \<Rightarrow> world \<Rightarrow> error option \<times> world" where
  "runAsync gcmd w =
     (case toCmd gcmd w of
        (cmd, Some e) \<Rightarrow> (Some e, w)
      | (cmd, None) \<Rightarrow>
          (let ident = hash gcmd;
               w1 = killSpawned ident w;
               w2 = w1\<lparr>waitExit := True\<rparr>;
               w3 = w2\<lparr>waitgroup := waitgroup w2 + 1\<rparr>
           in (None,
               w3\<lparr>units := units w3 @
                  [\<lparr>unit_id = ident, unit_cmd = cmd, unit_phase = Scheduled\<rparr>]\<rparr>)))"

definition Start ::
  "tokenizer \<Rightarrow> string \<Rightarrow> string list list \<Rightarrow> world \<Rightarrow> (panic + error option) \<times> world" where
  "Start ToArgv commandstr wds w =
     (case getWd wds w of
        Inl p \<Rightarrow> (Inl p, w)
      | Inr (Inl e) \<Rightarrow> (Inr (Some e), w)
      | Inr (Inr dir) \<Rightarrow>
          (case splitCommand ToArgv commandstr of
             Inl p \<Rightarrow> (Inl p, w)
           | Inr (exe, args, envs) \<Rightarrow>
               if HasSuffix exe ''.go''
               then
                 (case Run ToArgv ''go install'' wds w of
                    (Inl p, w') \<Rightarrow> (Inl p, w')
                  | (Inr (Some e), w') \<Rightarrow> (Inr (Some e), w')
                  | (Inr None, w') \<Rightarrow>
                      (case runAsync
                              \<lparr>executable = Base dir, argv = args, env = envs, wd = dir,
                               captureOutput = False, recorder = []\<rparr> w' of
                         (r, w'') \<Rightarrow> (Inr r, w'')))
               else
                 (case runAsync
                         \<lparr>executable = exe, argv = args, env = envs, wd = dir,
                          captureOutput = False, recorder = []\<rparr> w of
                    (r, w') \<Rightarrow> (Inr r, w'))))"

text \<open>
  The steps of a run of the program: the main goroutine calls \<open>Start\<close>, or the unit
  with index \<open>k\<close> takes its next step, or a child process exits by itself. \<open>None\<close>: the
  step cannot be taken in this state, or the program has panicked.

  \<^item> \<open>StartFails k\<close>: \<open>cmd.Start()\<close> returns an error and the goroutine returns.
  \<^item> \<open>StartOk k\<close>: \<open>cmd.Start()\<close> returns nil; a new process is running.
  \<^item> \<open>Registers k\<close>: \<open>spawnedProcesses[id] = cmd.Process\<close>.
  \<^item> \<open>WaitReturns k\<close>: \<open>cmd.Wait()\<close> returns, which needs the process to have
    stopped; then \<open>waitgroup.Done()\<close>, which panics on a negative counter.
\<close>

datatype action =
    CallStart string "string list list"
  | StartFails nat
  | StartOk nat
  | Registers nat
  | WaitReturns nat
  | ProcessExits pid

definition phase_of :: "world \<Rightarrow> nat \<Rightarrow> phase option" where
  "phase_of w k = (if k < length (units w) then Some (unit_phase (units w ! k)) else None)"

definition set_phase :: "nat \<Rightarrow> phase \<Rightarrow> world \<Rightarrow> world" where
  "set_phase k ph w = w\<lparr>units := (units w)[k := (units w ! k)\<lparr>unit_phase := ph\<rparr>]\<rparr>"

fun step :: "tokenizer \<Rightarrow> action \<Rightarrow> world \<Rightarrow> world option" where
  "step ToArgv (CallStart commandstr wds) w =
     (case Start ToArgv commandstr wds w of
        (Inl p, w') \<Rightarrow> None
      | (Inr r, w') \<Rightarrow> Some w')"
| "step ToArgv (StartFails k) w =
     (if phase_of w k = Some Scheduled then Some (set_phase k Failed w) else None)"
| "step ToArgv (StartOk k) w =
     (if phase_of w k = Some Scheduled
      then Some (set_phase k (Started (next_pid w))
                   (w\<lparr>live := live w @ [next_pid w], next_pid := Suc (next_pid w)\<rparr>))
      else None)"
| "step ToArgv (Registers k) w =
     (case phase_of w k of
        Some (Started p) \<Rightarrow>
          Some (set_phase k (Waiting p)
                  (w\<lparr>spawnedProcesses := (spawnedProcesses w)(unit_id (units w ! k) \<mapsto> p)\<rparr>))
      | _ \<Rightarrow> None)"
| "step ToArgv (WaitReturns k) w =
     (case phase_of w k of
        Some (Waiting p) \<Rightarrow>
          if p \<in> set (live w) then None
          else if waitgroup w - 1 < 0 then None
          else Some (set_phase k Finished (w\<lparr>waitgroup := waitgroup w - 1\<rparr>))
      | _ \<Rightarrow> None)"
| "step ToArgv (ProcessExits p) w =
     (if p \<in> set (live w) then Some (w\<lparr>live := removeAll p (live w)\<rparr>) else None)"

fun exec :: "tokenizer \<Rightarrow> action list \<Rightarrow> world \<Rightarrow> world option" where
  "exec ToArgv [] w = Some w"
| "exec ToArgv (a # as) w =
     (case step ToArgv a w of None \<Rightarrow> None | Some w' \<Rightarrow> exec ToArgv as w')"

text \<open>
  Modelled from the spec: the host's \<open>Await\<close> is not in src/. Section 4.4: it blocks
  until the barrier's count is zero, but only if the "should wait" flag was set.
  \<open>True\<close>: the call cannot return in this state.
\<close>

definition Await_blocks :: "world \<Rightarrow> bool" where
  "Await_blocks w = (waitExit w \<and> waitgroup w \<noteq> 0)"

section \<open>Scoped directory change\<close>

text \<open>
  \<open>Inside\<close>. The callback is a \<open>func()\<close>: it changes the world and either returns
  (\<open>None\<close>) or panics. The deferred \<open>os.Chdir(olddir)\<close> runs in both cases and its
  error is dropped; after a panic \<open>Inside\<close> does not return, the panic goes on.
\<close>

definition Inside ::
  "string \<Rightarrow> (world \<Rightarrow> panic option \<times> world) \<Rightarrow> world \<Rightarrow> (panic + error option) \<times> world" where
  "Inside dir lambda w =
     (case Getwd w of
        Inl e \<Rightarrow> (Inr (Some e), w)
      | Inr olddir \<Rightarrow>
          (case Chdir dir w of
             (Some e, w1) \<Rightarrow> (Inr (Some e), w1)
           | (None, w1) \<Rightarrow>
               (case lambda w1 of
                  (Some p, w2) \<Rightarrow> (Inl p, snd (Chdir olddir w2))
                | (None, w2) \<Rightarrow> (Inr None, snd (Chdir olddir w2)))))"

section \<open>Example states\<close>

definition world0 :: world where
  "world0 =
     \<lparr>cwd = ''/srv/app'', getwd_error = None,
      chdir_to =
        (\<lambda>c p. if p = ''/srv/app'' \<or> p = ''/tmp'' then Inr p
               else Inl (Error (''chdir '' @ p @ '': no such file or directory''))),
      environ = [], child = (\<lambda>c. ([(Stdout, ''ok'')], None)),
      stdout_file = [], stderr_file = [], errlog = [],
      spawnedProcesses = Map.empty, waitExit = False, waitgroup = 0,
      units = [], next_pid = 0, live = [], killed = []\<rparr>"

section \<open>Observations used in the statements\<close>

text \<open>The supervisor's part of the state: everything but the directory and the files.\<close>

definition tracking ::
  "world \<Rightarrow> (string \<rightharpoonup> pid) \<times> bool \<times> int \<times> bg_unit list \<times> pid \<times> pid list \<times> pid list \<times> log_entry list" where
  "tracking w =
     (spawnedProcesses w, waitExit w, waitgroup w, units w, next_pid w, live w, killed w,
      errlog w)"

text \<open>The units that have not called \<open>waitgroup.Done()\<close>.\<close>

definition pending :: "world \<Rightarrow> nat" where
  "pending w = length (filter (\<lambda>u. unit_phase u \<noteq> Finished) (units w))"

text \<open>
  The barrier counts at least the units that have not called \<open>Done\<close>, and the flag is
  set once a unit exists. It holds when the program starts (no unit, counter zero).
\<close>

definition barrier_inv :: "world \<Rightarrow> bool" where
  "barrier_inv w = (int (pending w) \<le> waitgroup w \<and> (units w = [] \<or> waitExit w))"

definition srv :: command where
  "srv = \<lparr>executable = ''srv'', argv = [], env = [], wd = ''/srv/app'',
          captureOutput = False, recorder = []\<rparr>"

text \<open>A state whose registry holds a handle of a process that has already stopped.\<close>

definition world_stale :: world where
  "world_stale = world0\<lparr>spawnedProcesses := [''srv'' \<mapsto> 7], next_pid := 8\<rparr>"

text \<open>A state in which every child fails, as a failed build does.\<close>

definition world_failing :: world where
  "world_failing =
     world0\<lparr>child := (\<lambda>c. ([(Stderr, ''build failed'')], Some (Error ''exit status 1'')))\<rparr>"




section \<open>Properties of the splitter\<close>

lemma Contains_char: "Contains s [c] = (c \<in> set s)"
  by (induction s) (auto simp: HasPrefix_def)

lemma splitCommand_loop_stops:
  "\<forall>x \<in> set es. Contains x ''='' \<Longrightarrow> \<not> Contains exe ''='' \<Longrightarrow>
   splitCommand_loop (es @ exe # rest) acc = Inr (exe, rest, acc @ es)"
  by (induction es arbitrary: acc) simp_all

lemma splitCommand_loop_runs_off:
  "\<forall>x \<in> set ts. Contains x ''='' \<Longrightarrow> splitCommand_loop ts acc = Inl (acc @ ts)"
  by (induction ts arbitrary: acc) simp_all

text \<open>
  Claim C1. When the command string tokenizes into N leading tokens that each contain
  \<open>=\<close>, followed by M tokens of which the first has no \<open>=\<close>, \<open>splitCommand\<close>
  returns that token as the executable, the N leading tokens in their order as env,
  and the M - 1 tokens after the executable in their order as argv. The scan stops at
  the executable, so this holds whatever the later tokens contain.
\<close>

theorem splitCommand_env_then_executable:
  assumes "ToArgv commandstr = es @ exe # rest"
    and "\<forall>t \<in> set es. CHR ''='' \<in> set t"
    and "CHR ''='' \<notin> set exe"
  shows "splitCommand ToArgv commandstr = Inr (exe, rest, es)"
  using assms(2,3)
  by (simp add: splitCommand_def assms(1) splitCommand_loop_stops Contains_char)

theorem splitCommand_env_then_executable_witness:
  "space_fields ''A=1 B=2 echo hi'' = [''A=1'', ''B=2''] @ ''echo'' # [''hi''] \<and>
   splitCommand space_fields ''A=1 B=2 echo hi'' = Inr (''echo'', [''hi''], [''A=1'', ''B=2''])"
proof -
  have tok: "space_fields ''A=1 B=2 echo hi'' = [''A=1'', ''B=2''] @ ''echo'' # [''hi'']"
    by (simp add: space_fields_def)
  show ?thesis
    using tok
      splitCommand_env_then_executable
        [where ToArgv = space_fields and commandstr = "''A=1 B=2 echo hi''", OF tok]
    by simp
qed

text \<open>
  Claim C6. When the command string tokenizes into at least one token and every token
  contains \<open>=\<close>, \<open>splitCommand\<close> does not panic: it returns the first token as the
  executable and the remaining tokens as argv (env holds every token). \<open>"A=1"\<close> gives
  the executable \<open>A=1\<close> and no argument.
\<close>

theorem splitCommand_all_assignments:
  assumes "ToArgv commandstr = t # ts"
    and "\<forall>x \<in> set (t # ts). CHR ''='' \<in> set x"
  shows "splitCommand ToArgv commandstr = Inr (t, ts, t # ts)"
proof -
  have "\<forall>x \<in> set (t # ts). Contains x ''=''"
    using assms(2) by (simp add: Contains_char)
  then have "splitCommand_loop (t # ts) [] = Inl ([] @ (t # ts))"
    by (rule splitCommand_loop_runs_off)
  then show ?thesis
    by (simp add: splitCommand_def assms(1))
qed

theorem splitCommand_all_assignments_witness:
  "space_fields ''A=1'' = [''A=1''] \<and>
   splitCommand space_fields ''A=1'' = Inr (''A=1'', [], [''A=1''])"
proof -
  have tok: "space_fields ''A=1'' = ''A=1'' # []"
    by (simp add: space_fields_def)
  show ?thesis
    using tok
      splitCommand_all_assignments
        [where ToArgv = space_fields and commandstr = "''A=1''", OF tok]
    by simp
qed

section \<open>A synchronous run leaves the supervisor's state alone\<close>

lemma tracking_file_write: "tracking (file_write s p w) = tracking w"
  by (cases s) (simp_all add: file_write_def tracking_def)

lemma tracking_chunk_write: "tracking (snd (chunk_write cmd rw ch)) = tracking (snd rw)"
  by (simp add: chunk_write_def writer_write_def wrapper_write_def tracking_file_write
      split: writer.splits)

lemma tracking_chunks:
  "tracking (snd (foldl (chunk_write cmd) rw chunks)) = tracking (snd rw)"
  by (induction chunks arbitrary: rw) (simp_all add: tracking_chunk_write)

lemma tracking_Cmd_Run: "tracking (snd (snd (Cmd_Run cmd r w))) = tracking w"
  by (simp add: Cmd_Run_def Let_def tracking_chunks)

lemma toCmd_no_error: "snd (toCmd gcmd w) = None"
  by (simp add: toCmd_def)

lemma tracking_command_run: "tracking (snd (command_run gcmd w)) = tracking w"

proof -
  obtain cmd where c: "toCmd gcmd w = (cmd, None)"
    using toCmd_no_error [of gcmd w] by (cases "toCmd gcmd w") simp
  obtain err r w' where r: "Cmd_Run cmd (recorder gcmd) w = (err, r, w')"
    by (cases "Cmd_Run cmd (recorder gcmd) w") auto
  have "tracking w' = tracking w"
    using tracking_Cmd_Run [of cmd "recorder gcmd" w] by (simp add: r)
  then show ?thesis
    by (simp add: command_run_def c r)

qed

lemma tracking_run: "tracking (snd (run ToArgv capture commandstr wds w)) = tracking w"

proof (cases "getWd wds w")
  case (Inl p)
  then show ?thesis by (simp add: run_def)

next
  case (Inr r)
  show ?thesis
  proof (cases r)
    case (Inl e)
    then show ?thesis using Inr by (simp add: run_def)
  next
    case dir: (Inr dir)
    show ?thesis
    proof (cases "splitCommand ToArgv commandstr")
      case (Inl p)
      then show ?thesis using Inr dir by (simp add: run_def)
    next
      case split: (Inr t)
      obtain exe args envs where t: "t = (exe, args, envs)"
        by (cases t) auto
      show ?thesis
        using Inr dir split t
          tracking_command_run [of "\<lparr>executable = exe, argv = args, env = envs, wd = dir,
                        captureOutput = capture, recorder = []\<rparr>" w]
        by (auto simp: run_def split: prod.splits)
    qed
  qed

qed

lemma tracking_Run: "tracking (snd (Run ToArgv commandstr wds w)) = tracking w"

proof -
  obtain r w' where r: "run ToArgv False commandstr wds w = (r, w')"
    by (cases "run ToArgv False commandstr wds w") auto
  have "tracking w' = tracking w"
    using tracking_run [of ToArgv False commandstr wds w] by (simp add: r)
  then show ?thesis
    by (cases r) (auto simp: Run_def r)

qed

lemma barrier_inv_tracking: "tracking w' = tracking w \<Longrightarrow> barrier_inv w' = barrier_inv w"
  by (simp add: tracking_def barrier_inv_def pending_def)

lemma phase_of_tracking: "tracking w' = tracking w \<Longrightarrow> phase_of w' k = phase_of w k"
  by (simp add: tracking_def phase_of_def)

section \<open>The shutdown barrier\<close>

subsection \<open>What killSpawned, runAsync and Start change\<close>

lemma killSpawned_keeps:
  "units (killSpawned ident w) = units w"
  "waitgroup (killSpawned ident w) = waitgroup w"
  "waitExit (killSpawned ident w) = waitExit w"
  "spawnedProcesses (killSpawned ident w) = spawnedProcesses w"
  "next_pid (killSpawned ident w) = next_pid w"
  by (simp_all add: killSpawned_def Process_Kill_def util_Error_def split: option.splits)

lemma runAsync_result:
  "runAsync gcmd w =
     (None,
      (killSpawned (hash gcmd) w)
        \<lparr>waitExit := True, waitgroup := waitgroup w + 1,
         units := units w @
           [\<lparr>unit_id = hash gcmd, unit_cmd = fst (toCmd gcmd w), unit_phase = Scheduled\<rparr>]\<rparr>)"

proof -
  obtain cmd where c: "toCmd gcmd w = (cmd, None)"
    using toCmd_no_error [of gcmd w] by (cases "toCmd gcmd w") simp
  show ?thesis
    by (simp add: runAsync_def c Let_def killSpawned_keeps)

qed

lemma runAsync_barrier_inv: "barrier_inv w \<Longrightarrow> barrier_inv (snd (runAsync gcmd w))"
  by (simp add: runAsync_result barrier_inv_def pending_def killSpawned_keeps)

lemma runAsync_phase_of:
  "k < length (units w) \<Longrightarrow> phase_of (snd (runAsync gcmd w)) k = phase_of w k"
  by (simp add: runAsync_result phase_of_def killSpawned_keeps nth_append)

lemma Start_unfold:
  "Start ToArgv commandstr wds w =
     (case getWd wds w of
        Inl p \<Rightarrow> (Inl p, w)
      | Inr (Inl e) \<Rightarrow> (Inr (Some e), w)
      | Inr (Inr dir) \<Rightarrow>
          (case splitCommand ToArgv commandstr of
             Inl p \<Rightarrow> (Inl p, w)
           | Inr (exe, args, envs) \<Rightarrow>
               if HasSuffix exe ''.go''
               then
                 (case Run ToArgv ''go install'' wds w of
                    (Inl p, w') \<Rightarrow> (Inl p, w')
                  | (Inr (Some e), w') \<Rightarrow> (Inr (Some e), w')
                  | (Inr None, w') \<Rightarrow>
                      (Inr None,
                       snd (runAsync
                              \<lparr>executable = Base dir, argv = args, env = envs, wd = dir,
                               captureOutput = False, recorder = []\<rparr> w')))
               else
                 (Inr None,
                  snd (runAsync
                         \<lparr>executable = exe, argv = args, env = envs, wd = dir,
                          captureOutput = False, recorder = []\<rparr> w))))"
  by (simp add: Start_def runAsync_result
      split: sum.splits prod.splits option.splits)

lemma Start_barrier_inv:
  assumes "barrier_inv w"
  shows "barrier_inv (snd (Start ToArgv commandstr wds w))"

proof -
  have build: "barrier_inv (snd (Run ToArgv ''go install'' wds w))"
    using assms barrier_inv_tracking [OF tracking_Run] by simp
  show ?thesis
    using assms build
    by (auto simp: Start_unfold runAsync_barrier_inv
        split: sum.splits prod.splits option.splits)

qed

lemma Start_phase_of:
  assumes "k < length (units w)"
  shows "phase_of (snd (Start ToArgv commandstr wds w)) k = phase_of w k"

proof -
  have t: "tracking (snd (Run ToArgv ''go install'' wds w)) = tracking w"
    by (rule tracking_Run)
  have build: "phase_of (snd (Run ToArgv ''go install'' wds w)) k = phase_of w k"
    by (rule phase_of_tracking [OF t])
  have len: "k < length (units (snd (Run ToArgv ''go install'' wds w)))"
    using t assms by (simp add: tracking_def)
  show ?thesis
    using assms build len
    by (auto simp: Start_unfold runAsync_phase_of
        split: sum.splits prod.splits option.splits)

qed

subsection \<open>Steps keep the barrier invariant\<close>

lemma filter_length_update:
  "k < length xs \<Longrightarrow>
   length (filter P (xs[k := y])) + (if P (xs ! k) then 1 else 0) =
   length (filter P xs) + (if P y then 1 else 0)"

proof (induction xs arbitrary: k)
  case Nil
  then show ?case by simp

next
  case (Cons x xs)
  then show ?case by (cases k) auto

qed

lemma pending_set_phase:
  "phase_of w k = Some old \<Longrightarrow>
   pending (set_phase k ph w) + (if old \<noteq> Finished then 1 else 0) =
   pending w + (if ph \<noteq> Finished then 1 else 0)"
  using filter_length_update
    [of k "units w" "\<lambda>u. unit_phase u \<noteq> Finished" "(units w ! k)\<lparr>unit_phase := ph\<rparr>"]
  by (auto simp: pending_def set_phase_def phase_of_def split: if_splits)

lemma set_phase_keeps:
  "waitgroup (set_phase k ph w) = waitgroup w"
  "waitExit (set_phase k ph w) = waitExit w"
  "spawnedProcesses (set_phase k ph w) = spawnedProcesses w"
  "errlog (set_phase k ph w) = errlog w"
  "length (units (set_phase k ph w)) = length (units w)"
  "(units (set_phase k ph w) = []) = (units w = [])"
  by (simp_all add: set_phase_def)

lemma phase_of_set_phase:
  "phase_of (set_phase k ph w) j =
     (if j < length (units w) then (if j = k then Some ph else phase_of w j) else None)"
  by (simp add: phase_of_def set_phase_def)

lemma step_barrier_inv:
  assumes "barrier_inv w" and "step ToArgv a w = Some w'"
  shows "barrier_inv w'"

proof (cases a)
  case (CallStart commandstr wds)
  then show ?thesis
    using assms Start_barrier_inv [of w ToArgv commandstr wds]
    by (auto split: sum.splits prod.splits)

next
  case (StartFails k)
  then show ?thesis
    using assms pending_set_phase [of w k Scheduled Failed]
    by (auto simp: barrier_inv_def set_phase_keeps split: if_splits)

next
  case (StartOk k)
  then show ?thesis
    using assms
      pending_set_phase [of "w\<lparr>live := live w @ [next_pid w], next_pid := Suc (next_pid w)\<rparr>"
         k Scheduled "Started (next_pid w)"]
    by (auto simp: barrier_inv_def set_phase_keeps phase_of_def pending_def split: if_splits)

next
  case (Registers k)
  then obtain p where ph: "phase_of w k = Some (Started p)"
    and w': "w' = set_phase k (Waiting p)
                   (w\<lparr>spawnedProcesses := (spawnedProcesses w)(unit_id (units w ! k) \<mapsto> p)\<rparr>)"
    using assms(2) by (auto split: option.splits phase.splits)
  let ?v = "w\<lparr>spawnedProcesses := (spawnedProcesses w)(unit_id (units w ! k) \<mapsto> p)\<rparr>"
  have "phase_of ?v k = Some (Started p)"
    using ph by (simp add: phase_of_def split: if_splits)
  from pending_set_phase [OF this, of "Waiting p"]
  have "pending w' = pending w"
    by (simp add: w' pending_def)
  then show ?thesis
    using assms(1) by (simp add: barrier_inv_def w' set_phase_keeps)

next
  case (WaitReturns k)
  then obtain p where ph: "phase_of w k = Some (Waiting p)"
    and w': "w' = set_phase k Finished (w\<lparr>waitgroup := waitgroup w - 1\<rparr>)"
    using assms(2) by (auto split: option.splits phase.splits if_splits)
  let ?v = "w\<lparr>waitgroup := waitgroup w - 1\<rparr>"
  have "phase_of ?v k = Some (Waiting p)"
    using ph by (simp add: phase_of_def split: if_splits)
  from pending_set_phase [OF this, of Finished]
  have "pending w' + 1 = pending w"
    by (simp add: w' pending_def)
  then show ?thesis
    using assms(1) by (simp add: barrier_inv_def w' set_phase_keeps)

next
  case (ProcessExits p)
  then show ?thesis
    using assms by (auto simp: barrier_inv_def pending_def split: if_splits)

qed

lemma exec_barrier_inv:
  "barrier_inv w \<Longrightarrow> exec ToArgv acts w = Some w' \<Longrightarrow> barrier_inv w'"

proof (induction acts arbitrary: w)
  case Nil
  then show ?case by simp

next
  case (Cons a acts)
  then show ?case
    by (auto split: option.splits dest: step_barrier_inv)

qed

subsection \<open>A unit that failed to start stays failed\<close>

lemma phase_of_Some_length: "phase_of w k = Some ph \<Longrightarrow> k < length (units w)"
  by (simp add: phase_of_def split: if_splits)

lemma step_keeps_Failed:
  assumes "phase_of w k = Some Failed" and "step ToArgv a w = Some w'"
  shows "phase_of w' k = Some Failed"

proof (cases a)
  case (CallStart commandstr wds)
  then show ?thesis
    using assms Start_phase_of [OF phase_of_Some_length [OF assms(1)], of ToArgv commandstr wds]
    by (auto split: sum.splits prod.splits)

next
  case (StartFails j)
  then show ?thesis
    using assms by (auto simp: phase_of_set_phase phase_of_Some_length split: if_splits)

next
  case (StartOk j)
  then show ?thesis
    using assms
    by (auto simp: phase_of_set_phase split: if_splits) (auto simp: phase_of_def split: if_splits)

next
  case (Registers j)
  then show ?thesis
    using assms
    by (auto simp: phase_of_set_phase split: if_splits option.splits phase.splits)
      (auto simp: phase_of_def split: if_splits)

next
  case (WaitReturns j)
  then show ?thesis
    using assms
    by (auto simp: phase_of_set_phase split: if_splits option.splits phase.splits)
      (auto simp: phase_of_def split: if_splits)

next
  case (ProcessExits p)
  then show ?thesis
    using assms by (auto simp: phase_of_def split: if_splits)

qed

lemma exec_keeps_Failed:
  "phase_of w k = Some Failed \<Longrightarrow> exec ToArgv acts w = Some w' \<Longrightarrow>
   phase_of w' k = Some Failed"

proof (induction acts arbitrary: w)
  case Nil
  then show ?case by simp

next
  case (Cons a acts)
  then show ?case
    by (auto split: option.splits dest: step_keeps_Failed)

qed

lemma pending_positive:
  "phase_of w k = Some ph \<Longrightarrow> ph \<noteq> Finished \<Longrightarrow> 0 < pending w"

proof -
  assume a: "phase_of w k = Some ph" "ph \<noteq> Finished"
  then have "k < length (units w)" "unit_phase (units w ! k) \<noteq> Finished"
    by (auto simp: phase_of_def split: if_splits)
  then have "units w ! k \<in> set (filter (\<lambda>u. unit_phase u \<noteq> Finished) (units w))"
    by simp
  then show ?thesis
    unfolding pending_def by (metis length_pos_if_in_set)

qed

lemma barrier_blocked:
  assumes "barrier_inv w" and "phase_of w k = Some Failed"
  shows "0 < waitgroup w \<and> Await_blocks w"

proof -
  have "0 < pending w"
    using pending_positive [OF assms(2)] by simp
  moreover have "units w \<noteq> []"
    using phase_of_Some_length [OF assms(2)] by auto
  ultimately show ?thesis
    using assms(1) by (auto simp: barrier_inv_def Await_blocks_def)

qed

subsection \<open>A failed start\<close>

text \<open>The definitions a concrete run is evaluated with.\<close>

lemmas run_model =
  Start_def runAsync_def killSpawned_def Process_Kill_def util_Error_def toCmd_def
  effectiveEnv_def hash_def getWd_def Getwd_def Chdir_def splitCommand_def
  space_fields_def HasSuffix_def HasPrefix_def Run_def RunOutput_def run_def command_run_def
  Cmd_Run_def chunk_write_def writer_write_def wrapper_write_def file_write_def
  phase_of_def set_phase_def world0_def Base_def Let_def

text \<open>
  Claim C3. \<open>runAsync\<close> returns nil after adding one to the barrier and scheduling its
  unit. When that unit's \<open>cmd.Start()\<close> fails, the unit returns at once: the barrier is
  not decremented, nothing is stored in the registry and nothing is logged. From a
  state in which the barrier counts every unit that has not called \<open>Done\<close> (as it does
  when the program starts), the counter then stays positive whatever happens later, so
  an \<open>Await\<close> cannot return.
\<close>

theorem failed_start_leaks_barrier:
  assumes "barrier_inv w0"
    and "exec ToArgv before (snd (runAsync gcmd w0)) = Some w"
    and "step ToArgv (StartFails (length (units w0))) w = Some w'"
    and "exec ToArgv later w' = Some w''"
  shows "fst (runAsync gcmd w0) = None \<and>
         waitgroup (snd (runAsync gcmd w0)) = waitgroup w0 + 1 \<and>
         phase_of (snd (runAsync gcmd w0)) (length (units w0)) = Some Scheduled \<and>
         waitgroup w' = waitgroup w \<and>
         spawnedProcesses w' = spawnedProcesses w \<and>
         errlog w' = errlog w \<and>
         phase_of w'' (length (units w0)) = Some Failed \<and>
         0 < waitgroup w'' \<and>
         Await_blocks w''"

proof -
  let ?k = "length (units w0)"
  have inv_w: "barrier_inv w"
    using exec_barrier_inv [OF runAsync_barrier_inv [OF assms(1)] assms(2)] .
  have sched: "phase_of w ?k = Some Scheduled" and w': "w' = set_phase ?k Failed w"
    using assms(3) by (auto split: if_splits)
  have inv_w': "barrier_inv w'"
    using step_barrier_inv [OF inv_w assms(3)] .
  have "phase_of w' ?k = Some Failed"
    using sched by (simp add: w' phase_of_set_phase phase_of_Some_length)
  then have failed: "phase_of w'' ?k = Some Failed"
    using exec_keeps_Failed assms(4) by blast
  have inv_w'': "barrier_inv w''"
    using exec_barrier_inv [OF inv_w' assms(4)] .
  have launch: "fst (runAsync gcmd w0) = None"
    "waitgroup (snd (runAsync gcmd w0)) = waitgroup w0 + 1"
    "phase_of (snd (runAsync gcmd w0)) ?k = Some Scheduled"
    by (simp_all add: runAsync_result phase_of_def killSpawned_keeps)
  show ?thesis
    using launch failed barrier_blocked [OF inv_w'' failed]
    by (simp add: w' set_phase_keeps)

qed

lemma barrier_inv_world0: "barrier_inv world0"
  by (simp add: barrier_inv_def pending_def world0_def)

theorem failed_start_leaks_barrier_witness:
  "barrier_inv world0 \<and>
   step space_fields (StartFails 0) (snd (runAsync srv world0)) \<noteq> None \<and>
   exec space_fields
     [CallStart ''other'' [], StartOk 1, Registers 1, ProcessExits 0, WaitReturns 1]
     (set_phase 0 Failed (snd (runAsync srv world0))) \<noteq> None \<and>
   waitgroup (the (exec space_fields
     [CallStart ''other'' [], StartOk 1, Registers 1, ProcessExits 0, WaitReturns 1]
     (set_phase 0 Failed (snd (runAsync srv world0))))) = 1 \<and>
   Await_blocks (the (exec space_fields
     [CallStart ''other'' [], StartOk 1, Registers 1, ProcessExits 0, WaitReturns 1]
     (set_phase 0 Failed (snd (runAsync srv world0)))))"

proof -
  let ?later = "[CallStart ''other'' [], StartOk 1, Registers 1, ProcessExits 0, WaitReturns 1]"
  let ?w = "snd (runAsync srv world0)"
  let ?w' = "set_phase 0 Failed ?w"
  have len: "length (units world0) = 0"
    by (simp add: world0_def)
  have h2: "exec space_fields [] ?w = Some ?w"
    by simp
  have h3: "step space_fields (StartFails 0) ?w = Some ?w'"
    by (simp add: run_model srv_def)
  then have fails: "step space_fields (StartFails 0) ?w \<noteq> None"
    by simp
  have h3': "step space_fields (StartFails (length (units world0))) ?w = Some ?w'"
    unfolding len by (rule h3)
  have run: "exec space_fields ?later ?w' \<noteq> None"
    by (simp add: run_model srv_def)
  then have h4: "exec space_fields ?later ?w' = Some (the (exec space_fields ?later ?w'))"
    by simp
  have count: "waitgroup (the (exec space_fields ?later ?w')) = 1"
    by (simp add: run_model srv_def)
  have blocks: "Await_blocks (the (exec space_fields ?later ?w'))"
    using failed_start_leaks_barrier [OF barrier_inv_world0 h2 h3' h4] by blast
  from barrier_inv_world0 fails run count blocks show ?thesis
    by blast

qed

section \<open>Killing a tracked process\<close>

text \<open>
  Claim C7. \<open>killSpawned\<close> leaves the state as it is when the registry has no handle
  for the identity. When \<open>Kill\<close> on the tracked handle fails, the failure is written
  to the log and nothing else: \<open>killSpawned\<close> has no result, and \<open>runAsync\<close>
  returns nil with its unit scheduled whatever the kill did.

\<close>

theorem killSpawned_swallows_kill_error:
  "(spawnedProcesses w ident = None \<longrightarrow> killSpawned ident w = w) \<and>
   (\<forall>p e w'. spawnedProcesses w ident = Some p \<longrightarrow> Process_Kill p w = (Some e, w') \<longrightarrow>
      killSpawned ident w =
        w'\<lparr>errlog := errlog w' @
              [LogError ''Start'' ''Could not kill existing process %+v\<newline>'' p]\<rparr>) \<and>
   fst (runAsync gcmd w) = None \<and>
   units (snd (runAsync gcmd w)) =
     units w @
       [\<lparr>unit_id = hash gcmd, unit_cmd = fst (toCmd gcmd w), unit_phase = Scheduled\<rparr>]"
  by (simp add: killSpawned_def util_Error_def runAsync_result killSpawned_keeps)

theorem killSpawned_swallows_kill_error_witness:
  "spawnedProcesses world0 ''srv'' = None \<and> killSpawned ''srv'' world0 = world0 \<and>
   spawnedProcesses world_stale ''srv'' = Some 7 \<and>
   Process_Kill 7 world_stale = (Some (Error ''os: process already finished''), world_stale) \<and>
   killSpawned ''srv'' world_stale =
     world_stale\<lparr>errlog :=
       [LogError ''Start'' ''Could not kill existing process %+v\<newline>'' 7]\<rparr> \<and>
   fst (runAsync srv world_stale) = None \<and>
   map unit_id (units (snd (runAsync srv world_stale))) = [''srv'']"

proof -
  have none: "spawnedProcesses world0 ''srv'' = None"
    by (simp add: world0_def)
  have some: "spawnedProcesses world_stale ''srv'' = Some 7"
    by (simp add: world_stale_def)
  have kill: "Process_Kill 7 world_stale =
      (Some (Error ''os: process already finished''), world_stale)"
    by (simp add: Process_Kill_def world_stale_def world0_def)
  have log: "errlog world_stale = []"
    by (simp add: world_stale_def world0_def)
  have units0: "units world_stale = []"
    by (simp add: world_stale_def world0_def)
  have id: "hash srv = ''srv''"
    by (simp add: hash_def srv_def)
  note a = killSpawned_swallows_kill_error [of world0 "''srv''" srv]
  note b = killSpawned_swallows_kill_error [of world_stale "''srv''" srv]
  have 1: "killSpawned ''srv'' world0 = world0"
    using a none by blast
  have 2: "killSpawned ''srv'' world_stale =
     world_stale\<lparr>errlog :=
       [LogError ''Start'' ''Could not kill existing process %+v\<newline>'' 7]\<rparr>"
    using b some kill log by simp
  have 3: "fst (runAsync srv world_stale) = None"
    using b by blast
  have 4: "map unit_id (units (snd (runAsync srv world_stale))) = [''srv'']"
    using b units0 id by simp
  from none 1 some kill 2 3 4 show ?thesis
    by blast

qed

section \<open>A run without capture\<close>

text \<open>
  Claim C8. With \<open>captureOutput\<close> false, \<open>command.run\<close> returns the empty string as
  its output, whatever the world is and so whatever the child writes.

\<close>

theorem run_without_capture_returns_empty:
  "\<not> captureOutput gcmd \<Longrightarrow> fst (fst (command_run gcmd w)) = []"
  by (simp add: command_run_def toCmd_def split: prod.splits)

theorem run_without_capture_returns_empty_witness:
  "\<not> captureOutput srv \<and> fst (fst (command_run srv world0)) = [] \<and>
   stdout_file (snd (command_run srv world0)) = ''ok''"

proof -
  have h: "\<not> captureOutput srv"
    by (simp add: srv_def)
  have wrote: "stdout_file (snd (command_run srv world0)) = ''ok''"
    by (simp add: run_model srv_def)
  from h run_without_capture_returns_empty [OF h, of world0] wrote show ?thesis
    by blast

qed

section \<open>Identities and supersession\<close>

text \<open>
  Claim C10. The identity is not injective: executable \<open>ab\<close> with no argument and
  executable \<open>a\<close> with the argument \<open>b\<close> both have the identity \<open>ab\<close>. So after
  \<open>Start("ab")\<close> has its process running and registered, \<open>Start("a b")\<close> kills it.

\<close>

theorem hash_collision_kills_other_command:
  "\<lparr>executable = ''ab'', argv = [], env = [], wd = ''/srv/app'',
    captureOutput = False, recorder = []\<rparr> \<noteq>
   \<lparr>executable = ''a'', argv = [''b''], env = [], wd = ''/srv/app'',
    captureOutput = False, recorder = []\<rparr> \<and>
   hash \<lparr>executable = ''ab'', argv = [], env = [], wd = ''/srv/app'',
         captureOutput = False, recorder = []\<rparr> = ''ab'' \<and>
   hash \<lparr>executable = ''a'', argv = [''b''], env = [], wd = ''/srv/app'',
         captureOutput = False, recorder = []\<rparr> = ''ab'' \<and>
   map_option (\<lambda>w. (map (\<lambda>u. (Args (unit_cmd u), unit_id u)) (units w), live w, killed w))
     (exec space_fields [CallStart ''ab'' [], StartOk 0, Registers 0, CallStart ''a b'' []]
        world0) =
   Some ([([''ab''], ''ab''), ([''a'', ''b''], ''ab'')], [], [0])"
  by (simp add: run_model)

text \<open>
  Claim C2, on the run it fails on: two calls of \<open>Start\<close> with the same command,
  the second before the goroutine of the first has started its process. The second
  call finds no handle in the registry, so no signal is sent: both processes run,
  under one identity, and the first is never signalled.

\<close>

theorem second_Start_misses_unregistered_process:
  "map_option (\<lambda>w. (map unit_id (units w), live w, killed w, spawnedProcesses w ''srv''))
     (exec space_fields
        [CallStart ''srv'' [], CallStart ''srv'' [], StartOk 0, StartOk 1,
         Registers 0, Registers 1] world0) =
   Some ([''srv'', ''srv''], [0, 1], [], Some 1)"
  by (simp add: run_model)

text \<open>
  When the handle of the earlier process is in the registry and the process is
  running, \<open>runAsync\<close> sends the signal before it schedules the new unit.

\<close>

lemma runAsync_kills_registered:
  assumes "spawnedProcesses w (hash gcmd) = Some p" and "p \<in> set (live w)"
  shows "killed (snd (runAsync gcmd w)) = killed w @ [p] \<and>
         p \<notin> set (live (snd (runAsync gcmd w)))"
  using assms by (simp add: runAsync_result killSpawned_def Process_Kill_def)

section \<open>A command string without tokens\<close>

lemma splitCommand_loop_member:
  "splitCommand_loop toks acc = Inr (exe, args, envs) \<Longrightarrow> exe \<in> set toks"
  by (induction toks arbitrary: acc) (auto split: if_splits)

text \<open>
  Claim C9. On a command string with no token \<open>splitCommand\<close> panics at \<open>argv[0]\<close>,
  and so do \<open>Run\<close>, \<open>RunOutput\<close> and \<open>Start\<close> once the working directory is
  resolved (the only step before the split); with at least one token
  \<open>splitCommand\<close> returns, and its executable is one of the tokens.

\<close>

theorem no_token_panics:
  "(ToArgv commandstr = [] \<longrightarrow>
      splitCommand ToArgv commandstr = Inl IndexOutOfRange \<and>
      (\<forall>wds w dir. getWd wds w = Inr (Inr dir) \<longrightarrow>
         Run ToArgv commandstr wds w = (Inl IndexOutOfRange, w) \<and>
         RunOutput ToArgv commandstr wds w = (Inl IndexOutOfRange, w) \<and>
         Start ToArgv commandstr wds w = (Inl IndexOutOfRange, w))) \<and>
   (ToArgv commandstr \<noteq> [] \<longrightarrow>
      (\<exists>exe args envs. splitCommand ToArgv commandstr = Inr (exe, args, envs) \<and>
         exe \<in> set (ToArgv commandstr)))"

proof (intro conjI impI)
  assume empty: "ToArgv commandstr = []"
  then show split: "splitCommand ToArgv commandstr = Inl IndexOutOfRange"
    by (simp add: splitCommand_def)
  show "\<forall>wds w dir. getWd wds w = Inr (Inr dir) \<longrightarrow>
         Run ToArgv commandstr wds w = (Inl IndexOutOfRange, w) \<and>
         RunOutput ToArgv commandstr wds w = (Inl IndexOutOfRange, w) \<and>
         Start ToArgv commandstr wds w = (Inl IndexOutOfRange, w)"
    by (simp add: Run_def RunOutput_def run_def Start_def split)

next
  assume "ToArgv commandstr \<noteq> []"
  then obtain t ts where toks: "ToArgv commandstr = t # ts"
    by (cases "ToArgv commandstr") auto
  show "\<exists>exe args envs. splitCommand ToArgv commandstr = Inr (exe, args, envs) \<and>
         exe \<in> set (ToArgv commandstr)"
  proof (cases "splitCommand_loop (t # ts) []")
    case (Inl envs)
    then show ?thesis
      by (simp add: splitCommand_def toks)
  next
    case (Inr r)
    obtain exe args envs where r: "r = (exe, args, envs)"
      by (cases r) auto
    have "exe \<in> set (t # ts)"
      using splitCommand_loop_member Inr r by blast
    then show ?thesis
      using Inr r by (simp add: splitCommand_def toks)
  qed

qed

theorem no_token_panics_witness:
  "space_fields [] = [] \<and> getWd [] world0 = Inr (Inr ''/srv/app'') \<and>
   splitCommand space_fields [] = Inl IndexOutOfRange \<and>
   Run space_fields [] [] world0 = (Inl IndexOutOfRange, world0) \<and>
   RunOutput space_fields [] [] world0 = (Inl IndexOutOfRange, world0) \<and>
   Start space_fields [] [] world0 = (Inl IndexOutOfRange, world0) \<and>
   space_fields ''ls -l'' \<noteq> [] \<and>
   (\<exists>exe args envs. splitCommand space_fields ''ls -l'' = Inr (exe, args, envs) \<and>
      exe \<in> set (space_fields ''ls -l''))"

proof -
  have e: "space_fields [] = []"
    by (simp add: space_fields_def)
  have d: "getWd [] world0 = Inr (Inr ''/srv/app'')"
    by (simp add: getWd_def Getwd_def world0_def)
  have n: "space_fields ''ls -l'' \<noteq> []"
    by (simp add: space_fields_def)
  note a = no_token_panics [of space_fields "[]"]
  note b = no_token_panics [of space_fields "''ls -l''"]
  from e d n a b show ?thesis
    by blast

qed

section \<open>Go source files are built first\<close>

lemma Run_go_install:
  assumes "getWd wds w = Inr (Inr dir)" and "ToArgv ''go install'' = [''go'', ''install'']"
  shows "Run ToArgv ''go install'' wds w =
           (Inr (snd (fst (command_run
                   \<lparr>executable = ''go'', argv = [''install''], env = [], wd = dir,
                    captureOutput = False, recorder = []\<rparr> w))),
            snd (command_run
                   \<lparr>executable = ''go'', argv = [''install''], env = [], wd = dir,
                    captureOutput = False, recorder = []\<rparr> w))"
  using assms
  by (simp add: Run_def run_def splitCommand_def HasPrefix_def split: prod.splits)

text \<open>
  Claim C4. When the executable that \<open>Start\<close> parses ends in \<open>.go\<close>, \<open>Start\<close> first
  runs \<open>Run("go install", wd...)\<close> in the state it was called in, which executes
  \<open>go install\<close> in the resolved working directory. If that returns an error, \<open>Start\<close>
  returns the same error and the supervisor's state is as before: no unit, no
  process, no registry entry. If it returns nil, \<open>Start\<close> goes on to \<open>runAsync\<close> with
  the executable replaced by the base name of the working directory.

\<close>

theorem Start_go_file_builds_first:
  assumes "getWd wds w = Inr (Inr dir)"
    and "splitCommand ToArgv commandstr = Inr (exe, args, envs)"
    and "HasSuffix exe ''.go''"
  shows "(ToArgv ''go install'' = [''go'', ''install''] \<longrightarrow>
            Run ToArgv ''go install'' wds w =
              (Inr (snd (fst (command_run
                      \<lparr>executable = ''go'', argv = [''install''], env = [], wd = dir,
                       captureOutput = False, recorder = []\<rparr> w))),
               snd (command_run
                      \<lparr>executable = ''go'', argv = [''install''], env = [], wd = dir,
                       captureOutput = False, recorder = []\<rparr> w))) \<and>
         (\<forall>e w'. Run ToArgv ''go install'' wds w = (Inr (Some e), w') \<longrightarrow>
            Start ToArgv commandstr wds w = (Inr (Some e), w') \<and> tracking w' = tracking w) \<and>
         (\<forall>w'. Run ToArgv ''go install'' wds w = (Inr None, w') \<longrightarrow>
            Start ToArgv commandstr wds w =
              (Inr (fst (runAsync
                      \<lparr>executable = Base dir, argv = args, env = envs, wd = dir,
                       captureOutput = False, recorder = []\<rparr> w')),
               snd (runAsync
                      \<lparr>executable = Base dir, argv = args, env = envs, wd = dir,
                       captureOutput = False, recorder = []\<rparr> w')))"

proof (intro conjI allI impI)
  assume "ToArgv ''go install'' = [''go'', ''install'']"
  then show "Run ToArgv ''go install'' wds w =
              (Inr (snd (fst (command_run
                      \<lparr>executable = ''go'', argv = [''install''], env = [], wd = dir,
                       captureOutput = False, recorder = []\<rparr> w))),
               snd (command_run
                      \<lparr>executable = ''go'', argv = [''install''], env = [], wd = dir,
                       captureOutput = False, recorder = []\<rparr> w))"
    by (rule Run_go_install [OF assms(1)])

next
  fix e w'
  assume build: "Run ToArgv ''go install'' wds w = (Inr (Some e), w')"
  show "Start ToArgv commandstr wds w = (Inr (Some e), w')"
    using assms build by (simp add: Start_def)
  show "tracking w' = tracking w"
    using tracking_Run [of ToArgv "''go install''" wds w] by (simp add: build)

next
  fix w'
  assume build: "Run ToArgv ''go install'' wds w = (Inr None, w')"
  show "Start ToArgv commandstr wds w =
              (Inr (fst (runAsync
                      \<lparr>executable = Base dir, argv = args, env = envs, wd = dir,
                       captureOutput = False, recorder = []\<rparr> w')),
               snd (runAsync
                      \<lparr>executable = Base dir, argv = args, env = envs, wd = dir,
                       captureOutput = False, recorder = []\<rparr> w'))"
    using assms build by (simp add: Start_def split: prod.splits)

qed

theorem Start_go_file_builds_first_witness:
  "getWd [] world0 = Inr (Inr ''/srv/app'') \<and>
   splitCommand space_fields ''PORT=80 main.go -v'' = Inr (''main.go'', [''-v''], [''PORT=80'']) \<and>
   HasSuffix ''main.go'' ''.go'' \<and>
   space_fields ''go install'' = [''go'', ''install''] \<and>
   Run space_fields ''go install'' [] world_failing =
     (Inr (Some (Error ''exit status 1'')),
      world_failing\<lparr>stderr_file := ''build failed''\<rparr>) \<and>
   Start space_fields ''PORT=80 main.go -v'' [] world_failing =
     (Inr (Some (Error ''exit status 1'')),
      world_failing\<lparr>stderr_file := ''build failed''\<rparr>) \<and>
   Run space_fields ''go install'' [] world0 = (Inr None, world0\<lparr>stdout_file := ''ok''\<rparr>) \<and>
   fst (Start space_fields ''PORT=80 main.go -v'' [] world0) = Inr None \<and>
   map (\<lambda>u. (Args (unit_cmd u), Dir (unit_cmd u), Env (unit_cmd u)))
     (units (snd (Start space_fields ''PORT=80 main.go -v'' [] world0))) =
     [([''app'', ''-v''], ''/srv/app'', [''PORT=80''])]"

proof -
  have wd0: "getWd [] world0 = Inr (Inr ''/srv/app'')"
    by (simp add: getWd_def Getwd_def world0_def)
  have wd1: "getWd [] world_failing = Inr (Inr ''/srv/app'')"
    by (simp add: getWd_def Getwd_def world0_def world_failing_def)
  have split: "splitCommand space_fields ''PORT=80 main.go -v'' =
      Inr (''main.go'', [''-v''], [''PORT=80''])"
    by (simp add: splitCommand_def space_fields_def HasPrefix_def)
  have suffix: "HasSuffix ''main.go'' ''.go''"
    by (simp add: HasSuffix_def)
  have tok: "space_fields ''go install'' = [''go'', ''install'']"
    by (simp add: space_fields_def)
  have fail: "Run space_fields ''go install'' [] world_failing =
     (Inr (Some (Error ''exit status 1'')), world_failing\<lparr>stderr_file := ''build failed''\<rparr>)"
    by (simp add: run_model world_failing_def)
  have ok: "Run space_fields ''go install'' [] world0 = (Inr None, world0\<lparr>stdout_file := ''ok''\<rparr>)"
    by (simp add: run_model)
  note a = Start_go_file_builds_first [OF wd1 split suffix]
  note b = Start_go_file_builds_first [OF wd0 split suffix]
  have 1: "Start space_fields ''PORT=80 main.go -v'' [] world_failing =
     (Inr (Some (Error ''exit status 1'')), world_failing\<lparr>stderr_file := ''build failed''\<rparr>)"
    using a fail by blast
  have 2: "Start space_fields ''PORT=80 main.go -v'' [] world0 =
     (Inr (fst (runAsync
             \<lparr>executable = Base ''/srv/app'', argv = [''-v''], env = [''PORT=80''],
              wd = ''/srv/app'', captureOutput = False, recorder = []\<rparr>
             (world0\<lparr>stdout_file := ''ok''\<rparr>))),
      snd (runAsync
             \<lparr>executable = Base ''/srv/app'', argv = [''-v''], env = [''PORT=80''],
              wd = ''/srv/app'', captureOutput = False, recorder = []\<rparr>
             (world0\<lparr>stdout_file := ''ok''\<rparr>)))"
    using b ok by blast
  have 3: "fst (Start space_fields ''PORT=80 main.go -v'' [] world0) = Inr None"
    unfolding 2 by (simp add: runAsync_result)
  have 4: "map (\<lambda>u. (Args (unit_cmd u), Dir (unit_cmd u), Env (unit_cmd u)))
     (units (snd (Start space_fields ''PORT=80 main.go -v'' [] world0))) =
     [([''app'', ''-v''], ''/srv/app'', [''PORT=80''])]"
    unfolding 2 by (simp add: run_model)
  from wd0 split suffix tok fail 1 ok 3 4 show ?thesis
    by blast

qed

section \<open>The directory after Inside\<close>

text \<open>When the current directory cannot be read, nothing is switched and nothing is called.\<close>

lemma Inside_Getwd_error: "Getwd w = Inl e \<Longrightarrow> Inside dir lambda w = (Inr (Some e), w)"
  by (simp add: Inside_def)




end
